theory Spec2Isabelle
  imports Complex_Main
begin

section \<open>Arrays\<close>

text \<open>
  The sampler works on numpy arrays.  An array is its shape together with its elements
  in row-major (C) order, which is the order \<open>reshape\<close> preserves.  Every raise of the
  source or of a library routine it calls is a value \<open>Inl e\<close>.

  Array elements are reals: the rounding and overflow of float64 arithmetic are not
  modelled.  The results below are about shapes, failures and the layout of the
  elements, which do not depend on rounding; where a lemma gives the value of a grid
  coordinate, it is the value in exact arithmetic.
\<close>

datatype error = ValueError | RuntimeError | AxisError

datatype 'a ndarray = NDArray (shape: "nat list") (data: "'a list")

definition thenR :: "error + 'a \<Rightarrow> ('a \<Rightarrow> error + 'b) \<Rightarrow> error + 'b" where
  "thenR m f = (case m of Inl e \<Rightarrow> Inl e | Inr x \<Rightarrow> f x)"

definition wf_array :: "'a ndarray \<Rightarrow> bool" where
  "wf_array a = (length (data a) = prod_list (shape a))"

text \<open>All index tuples of a shape, in row-major order, and the position of one of them.\<close>

fun all_indices :: "nat list \<Rightarrow> nat list list" where
  "all_indices [] = [[]]"
| "all_indices (n # ns) = concat (map (\<lambda>i. map ((#) i) (all_indices ns)) [0..<n])"

fun flat_index :: "nat list \<Rightarrow> nat list \<Rightarrow> nat" where
  "flat_index (n # ns) (i # js) = i * prod_list ns + flat_index ns js"
| "flat_index _ _ = 0"

definition valid_index :: "nat list \<Rightarrow> nat list \<Rightarrow> bool" where
  "valid_index s idx = list_all2 (<) idx s"

text \<open>\<open>a[idx]\<close> for an index tuple inside the shape.\<close>

definition item :: "'a ndarray \<Rightarrow> nat list \<Rightarrow> 'a" where
  "item a idx = data a ! flat_index (shape a) idx"

text \<open>The array of a given shape whose element at \<open>idx\<close> is \<open>f idx\<close>.\<close>

definition tabulate :: "nat list \<Rightarrow> (nat list \<Rightarrow> 'a) \<Rightarrow> 'a ndarray" where
  "tabulate s f = NDArray s (map f (all_indices s))"

subsection \<open>numpy routines used by the sampler\<close>

text \<open>\<open>a.reshape(*dims)\<close>: the sizes must agree; the elements keep their order.\<close>

definition reshape :: "'a ndarray \<Rightarrow> nat list \<Rightarrow> error + 'a ndarray" where
  "reshape a dims =
     (if prod_list dims = prod_list (shape a) then Inr (NDArray dims (data a))
      else Inl ValueError)"

text \<open>
  \<open>a.reshape(-1, *dims)\<close>: the leading length is inferred.  numpy refuses when the
  product of the known lengths is zero or does not divide the size.
\<close>

definition reshape_infer :: "'a ndarray \<Rightarrow> nat list \<Rightarrow> error + 'a ndarray" where
  "reshape_infer a dims =
     (let known = prod_list dims; sz = prod_list (shape a)
      in if known = 0 \<or> sz mod known \<noteq> 0 then Inl ValueError
         else Inr (NDArray ((sz div known) # dims) (data a)))"

text \<open>\<open>a.T\<close>: the axes reversed.\<close>

definition transpose_nd :: "'a ndarray \<Rightarrow> 'a ndarray" where
  "transpose_nd a = tabulate (rev (shape a)) (\<lambda>idx. item a (rev idx))"

text \<open>An axis argument, which may be negative, against the number of axes.\<close>

definition normalize_axis :: "int \<Rightarrow> nat \<Rightarrow> error + nat" where
  "normalize_axis ax nd =
     (if - int nd \<le> ax \<and> ax < int nd then Inr (nat (if ax < 0 then ax + int nd else ax))
      else Inl AxisError)"

definition swap_list :: "nat \<Rightarrow> nat \<Rightarrow> 'a list \<Rightarrow> 'a list" where
  "swap_list i j xs = (xs[i := xs ! j])[j := xs ! i]"

text \<open>\<open>np.swapaxes(a, axis1, axis2)\<close>.\<close>

definition swapaxes :: "'a ndarray \<Rightarrow> int \<Rightarrow> int \<Rightarrow> error + 'a ndarray" where
  "swapaxes a axis1 axis2 =
     thenR (normalize_axis axis1 (length (shape a))) (\<lambda>i.
     thenR (normalize_axis axis2 (length (shape a))) (\<lambda>j.
       Inr (tabulate (swap_list i j (shape a)) (\<lambda>idx. item a (swap_list i j idx)))))"

text \<open>
  \<open>np.stack(arrays, axis)\<close> for a non-negative axis: at least one array, all of one
  shape; the new axis of length \<open>len(arrays)\<close> is inserted at \<open>axis\<close>.
\<close>

definition stack :: "'a ndarray list \<Rightarrow> nat \<Rightarrow> error + 'a ndarray" where
  "stack arrays axis =
     (case arrays of
        [] \<Rightarrow> Inl ValueError
      | a # _ \<Rightarrow>
          if \<not> list_all (\<lambda>b. shape b = shape a) arrays then Inl ValueError
          else if length (shape a) < axis then Inl AxisError
          else Inr (tabulate (take axis (shape a) @ length arrays # drop axis (shape a))
                 (\<lambda>idx. item (arrays ! (idx ! axis)) (take axis idx @ drop (Suc axis) idx))))"

text \<open>
  Broadcasting: shapes are aligned at their last axis; two lengths are compatible when
  they are equal or one of them is 1.  \<open>broadcast_dims\<close> works on the reversed shapes.
\<close>

fun broadcast_dims :: "nat list \<Rightarrow> nat list \<Rightarrow> error + nat list" where
  "broadcast_dims [] ys = Inr ys"
| "broadcast_dims (x # xs) [] = Inr (x # xs)"
| "broadcast_dims (x # xs) (y # ys) =
     (if x = y \<or> y = 1 then thenR (broadcast_dims xs ys) (\<lambda>r. Inr (x # r))
      else if x = 1 then thenR (broadcast_dims xs ys) (\<lambda>r. Inr (y # r))
      else Inl ValueError)"

definition broadcast_shapes :: "nat list \<Rightarrow> nat list \<Rightarrow> error + nat list" where
  "broadcast_shapes s t = thenR (broadcast_dims (rev s) (rev t)) (\<lambda>r. Inr (rev r))"

text \<open>The element of \<open>a\<close> that broadcasting puts at index \<open>idx\<close> of the result.\<close>

definition bitem :: "'a ndarray \<Rightarrow> nat list \<Rightarrow> 'a" where
  "bitem a idx =
     item a (map2 (\<lambda>d i. if d = 1 then 0 else i) (shape a)
               (drop (length idx - length (shape a)) idx))"

text \<open>\<open>a + b\<close> on arrays.\<close>

definition add_nd :: "real ndarray \<Rightarrow> real ndarray \<Rightarrow> error + real ndarray" where
  "add_nd a b =
     thenR (broadcast_shapes (shape a) (shape b)) (\<lambda>s.
       Inr (tabulate s (\<lambda>idx. bitem a idx + bitem b idx)))"

text \<open>\<open>a.squeeze()\<close>: every axis of length 1 is dropped.\<close>

definition squeeze :: "'a ndarray \<Rightarrow> 'a ndarray" where
  "squeeze a = NDArray (filter (\<lambda>d. d \<noteq> 1) (shape a)) (data a)"

text \<open>
  \<open>np.linspace(start, stop, num)\<close>: a negative \<open>num\<close> raises; otherwise \<open>num\<close> values
  \<open>start + i * step\<close> with \<open>step = (stop - start) / (num - 1)\<close>, the last one set to
  \<open>stop\<close>.
\<close>

definition linspace :: "real \<Rightarrow> real \<Rightarrow> int \<Rightarrow> error + real list" where
  "linspace start stop num =
     (if num < 0 then Inl ValueError
      else Inr (map (\<lambda>i. if 1 < num \<and> int i = num - 1 then stop
                          else start + real i * ((stop - start) / real_of_int (num - 1)))
                  [0..<nat num]))"

text \<open>
  \<open>np.meshgrid(*coords, indexing="ij")\<close>: one array per coordinate vector, all of shape
  \<open>(len(coords[0]), ..., len(coords[-1]))\<close>; the \<open>d\<close>-th varies along axis \<open>d\<close> only.
\<close>

definition meshgrid_ij :: "'a list list \<Rightarrow> 'a ndarray list" where
  "meshgrid_ij coords =
     map (\<lambda>d. tabulate (map length coords) (\<lambda>idx. (coords ! d) ! (idx ! d)))
       [0..<length coords]"

section \<open>Rotations and interpolation\<close>

type_synonym vec3 = "real \<times> real \<times> real"

text \<open>A rotation is given by the three rows of its matrix.\<close>

datatype rotation = Rotation vec3 vec3 vec3

fun dot :: "vec3 \<Rightarrow> vec3 \<Rightarrow> real" where
  "dot (a, b, c) (x, y, z) = a * x + b * y + c * z"

fun rot_vec :: "rotation \<Rightarrow> vec3 \<Rightarrow> vec3" where
  "rot_vec (Rotation r1 r2 r3) v = (dot r1 v, dot r2 v, dot r3 v)"

fun vadd :: "vec3 \<Rightarrow> vec3 \<Rightarrow> vec3" where
  "vadd (a, b, c) (x, y, z) = (a + x, b + y, c + z)"

fun vec_list :: "vec3 \<Rightarrow> real list" where
  "vec_list (x, y, z) = [x, y, z]"

definition identity_rotation :: rotation where
  "identity_rotation = Rotation (1, 0, 0) (0, 1, 0) (0, 0, 1)"

text \<open>The point stored at \<open>idx\<close> in an array whose last axis holds the three components.\<close>

definition point :: "real ndarray \<Rightarrow> nat list \<Rightarrow> vec3" where
  "point a idx = (item a (idx @ [0]), item a (idx @ [1]), item a (idx @ [2]))"

text \<open>
  \<open>Rotation.apply\<close> on an array of shape \<open>(N, 3)\<close>: every row is rotated.  The sampler
  only calls it on the result of \<open>reshape(-1, 3)\<close>, where its shape check cannot fail.
\<close>

definition apply_rotation :: "rotation \<Rightarrow> real ndarray \<Rightarrow> real ndarray" where
  "apply_rotation r vectors =
     tabulate (shape vectors)
       (\<lambda>idx. vec_list (rot_vec r (point vectors [idx ! 0])) ! (idx ! 1))"

text \<open>
  \<open>scipy.ndimage.map_coordinates(input, coordinates, order)\<close>.  The spline evaluation
  itself is the parameter \<open>interp\<close>: the value of \<open>input\<close> at one point, for one order.
  The routine refuses an order outside 0..5, an input or output without axes, and a
  coordinate array whose first axis is not as long as the input has axes.
\<close>

definition map_coordinates ::
  "(real ndarray \<Rightarrow> int \<Rightarrow> real list \<Rightarrow> real) \<Rightarrow> real ndarray \<Rightarrow> real ndarray \<Rightarrow> int
     \<Rightarrow> error + real ndarray" where
  "map_coordinates interp input coordinates order =
     (let output_shape = tl (shape coordinates)
      in if order < 0 \<or> 5 < order then Inl RuntimeError
         else if length (shape input) < 1 \<or> length output_shape < 1 then Inl RuntimeError
         else if hd (shape coordinates) \<noteq> length (shape input) then Inl RuntimeError
         else Inr (tabulate output_shape
                (\<lambda>idx. interp input order
                   (map (\<lambda>c. item coordinates (c # idx)) [0..<length (shape input)]))))"

text \<open>
  An instance of the parameter for concrete runs, meant for order 0 only: the nearest
  voxel for a point whose coordinates all lie in \<open>[0, n - 1]\<close> along their axis, and 0
  (the fill value of \<open>mode='constant'\<close>) for every other point.
\<close>

definition nearest_interp :: "real ndarray \<Rightarrow> int \<Rightarrow> real list \<Rightarrow> real" where
  "nearest_interp input order p =
     (if list_all2 (\<lambda>x n. 0 \<le> x \<and> x \<le> real n - 1) p (shape input)
      then item input (map (\<lambda>x. nat \<lfloor>x + 1 / 2\<rfloor>) p) else 0)"

section \<open>The sampler\<close>

text \<open>
  One axis of \<open>generate_3D_grid\<close>: the body of its loop.  The scalar \<open>0\<close> of a
  length-1 axis is the one-element vector \<open>meshgrid\<close> makes of it.
\<close>

definition axis_coord :: "int \<Rightarrow> real \<Rightarrow> error + real list" where
  "axis_coord len spacing =
     (if len \<noteq> 1
      then thenR (linspace (- 0.5) 0.5 len)
             (\<lambda>xs. Inr (map (\<lambda>x. x * real_of_int (len - 1) * spacing) xs))
      else Inr [0])"

definition generate_3D_grid ::
  "int \<times> int \<times> int \<Rightarrow> real \<times> real \<times> real \<Rightarrow> bool \<Rightarrow> error + real ndarray" where
  "generate_3D_grid grid_shape grid_spacing squeeze_flag =
     (case (grid_shape, grid_spacing) of ((n0, n1, n2), (s0, s1, s2)) \<Rightarrow>
        thenR (axis_coord n0 s0) (\<lambda>c0.
        thenR (axis_coord n1 s1) (\<lambda>c1.
        thenR (axis_coord n2 s2) (\<lambda>c2.
        thenR (stack (meshgrid_ij [c0, c1, c2]) 3) (\<lambda>grid.
          Inr (if squeeze_flag then squeeze grid else grid))))))"

definition generate_2D_grid :: "int \<times> int \<Rightarrow> real \<times> real \<Rightarrow> error + real ndarray" where
  "generate_2D_grid grid_shape grid_spacing =
     (case (grid_shape, grid_spacing) of ((m, n), (sx, sy)) \<Rightarrow>
        generate_3D_grid (m, n, 1) (sx, sy, 1) True)"

definition generate_1D_grid :: "int \<Rightarrow> real \<Rightarrow> error + real ndarray" where
  "generate_1D_grid grid_shape grid_spacing =
     generate_3D_grid (1, 1, grid_shape) (1, 1, grid_spacing) True"

definition generate_sampling_coordinates ::
  "real ndarray \<Rightarrow> real ndarray \<Rightarrow> rotation list \<Rightarrow> error + real ndarray" where
  "generate_sampling_coordinates sampling_grid positions orientations =
     (let grid_shape = shape sampling_grid
      in thenR (reshape_infer sampling_grid [3]) (\<lambda>grid_coords.
         let rotated = map (\<lambda>orientation. apply_rotation orientation grid_coords) orientations
         in thenR (stack rotated 1) (\<lambda>stacked.
            thenR (add_nd stacked positions) (\<lambda>rotated_shifted.
              reshape_infer rotated_shifted grid_shape))))"

definition sample_volume_at_coordinates ::
  "(real ndarray \<Rightarrow> int \<Rightarrow> real list \<Rightarrow> real) \<Rightarrow> real ndarray \<Rightarrow> real ndarray \<Rightarrow> int
     \<Rightarrow> error + real ndarray" where
  "sample_volume_at_coordinates interp volume coordinates interpolation_order =
     (case shape coordinates of
        [] \<Rightarrow> Inl ValueError
      | [_] \<Rightarrow> Inl ValueError
      | batch # rest \<Rightarrow>
          (let grid_shape = butlast rest
           in thenR (reshape_infer coordinates [3]) (\<lambda>coords.
              thenR (map_coordinates interp volume (transpose_nd coords) interpolation_order)
                (\<lambda>sampled_volume.
              thenR (reshape sampled_volume (grid_shape @ [batch])) (\<lambda>reshaped.
                swapaxes reshaped (- 1) 0)))))"

section \<open>Concrete inputs\<close>

text \<open>Small arrays on which the sampler is run below.\<close>

definition grid_demo :: "real ndarray" where
  "grid_demo = NDArray [2, 3] [1, 0, 0, 2, 0, 0]"

definition positions_demo :: "real ndarray" where
  "positions_demo = NDArray [2, 3] [0, 0, 0, 0, 1, 0]"

definition volume_demo :: "real ndarray" where
  "volume_demo = NDArray [3, 3, 3] (map real [0..<27])"

definition coords_demo :: "real ndarray" where
  "coords_demo = NDArray [2, 3, 3] [0, 0, 0, 0, 0, 1, 0, 0, 2, 1, 0, 0, 1, 0, 1, 1, 0, 2]"

definition coords_plane :: "real ndarray" where
  "coords_plane = NDArray [2, 1, 2, 3] [0, 0, 0, 0, 0, 1, 0, 0, 2, 1, 1, 1]"

definition coords_empty :: "real ndarray" where
  "coords_empty = NDArray [0, 5] []"

definition coords_wide :: "real ndarray" where
  "coords_wide = NDArray [1, 2, 6] [0, 0, 0, 0, 0, 1, 0, 0, 2, 1, 0, 0]"

definition quarter_turn_z :: rotation where
  "quarter_turn_z = Rotation (0, - 1, 0) (1, 0, 0) (0, 0, 1)"

definition zero_grid :: "real ndarray" where
  "zero_grid = NDArray [2, 3] [0, 0, 0, 0, 0, 0]"

definition positions_pair :: "real ndarray" where
  "positions_pair = NDArray [2, 3] [1, 2, 3, 4, 5, 6]"

definition positions_single :: "real ndarray" where
  "positions_single = NDArray [1, 3] [5, 6, 7]"

definition positions_triple :: "real ndarray" where
  "positions_triple = NDArray [3, 3] [0, 0, 0, 1, 1, 1, 2, 2, 2]"

section \<open>Index arithmetic\<close>

lemma thenR_Inr [simp]: "thenR (Inr x) f = f x"
  by (simp add: thenR_def)

lemma thenR_Inl [simp]: "thenR (Inl e) f = Inl e"
  by (simp add: thenR_def)

lemma length_concat_uniform:
  "(\<And>i. i < n \<Longrightarrow> length (f i) = m) \<Longrightarrow> length (concat (map f [0..<n])) = n * m"
  by (induction n) simp_all

lemma block_bound: "i < n \<Longrightarrow> j < m \<Longrightarrow> i * m + j < n * (m::nat)"
proof -
  assume a: "i < n" "j < m"
  then have "i * m + j < i * m + m" by simp
  also have "\<dots> = Suc i * m" by simp
  also have "\<dots> \<le> n * m" using a(1) by (intro mult_le_mono1) simp
  finally show ?thesis .
qed

lemma nth_concat_uniform:
  "(\<And>i. i < n \<Longrightarrow> length (f i) = m) \<Longrightarrow> i < n \<Longrightarrow> j < m
     \<Longrightarrow> concat (map f [0..<n]) ! (i * m + j) = f i ! j"
proof (induction n)
  case 0
  then show ?case by simp
next
  case (Suc n)
  have len: "length (concat (map f [0..<n])) = n * m"
    using Suc.prems(1) by (intro length_concat_uniform) simp
  show ?case
  proof (cases "i < n")
    case True
    then have "i * m + j < n * m" using Suc.prems(3) by (rule block_bound)
    then show ?thesis using Suc True len by (simp add: nth_append)
  next
    case False
    then have "i = n" using Suc.prems(2) by simp
    then show ?thesis using len by (simp add: nth_append)
  qed
qed

lemma length_all_indices [simp]: "length (all_indices s) = prod_list s"
proof (induction s)
  case Nil
  then show ?case by simp
next
  case (Cons n ns)
  then show ?case by (simp add: length_concat_uniform)
qed

lemma valid_index_Cons [simp]:
  "valid_index (n # ns) (i # js) = (i < n \<and> valid_index ns js)"
  by (simp add: valid_index_def)

lemma valid_index_Nil [simp]: "valid_index [] idx = (idx = [])"
  by (simp add: valid_index_def)

lemma valid_index_Nil2 [simp]: "valid_index s [] = (s = [])"
  by (simp add: valid_index_def)

lemma valid_index_Cons_iff:
  "valid_index (n # ns) idx = (\<exists>i js. idx = i # js \<and> i < n \<and> valid_index ns js)"
  by (cases idx) (simp_all add: valid_index_def)

lemma valid_index_length: "valid_index s idx \<Longrightarrow> length idx = length s"
  by (simp add: valid_index_def list_all2_lengthD)

lemma flat_index_less: "valid_index s idx \<Longrightarrow> flat_index s idx < prod_list s"
proof (induction s arbitrary: idx)
  case Nil
  then show ?case by simp
next
  case (Cons n ns)
  then obtain i js where idx: "idx = i # js" "i < n" "valid_index ns js"
    by (auto simp: valid_index_Cons_iff)
  then have "flat_index ns js < prod_list ns" using Cons.IH by simp
  then show ?case using idx block_bound [of i n "flat_index ns js" "prod_list ns"] by simp
qed

lemma all_indices_nth:
  "valid_index s idx \<Longrightarrow> all_indices s ! flat_index s idx = idx"
proof (induction s arbitrary: idx)
  case Nil
  then show ?case by simp
next
  case (Cons n ns)
  then obtain i js where idx: "idx = i # js" "i < n" "valid_index ns js"
    by (auto simp: valid_index_Cons_iff)
  have fl: "flat_index ns js < prod_list ns" using idx(3) by (rule flat_index_less)
  have "concat (map (\<lambda>i. map ((#) i) (all_indices ns)) [0..<n]) ! (i * prod_list ns + flat_index ns js)
        = map ((#) i) (all_indices ns) ! flat_index ns js"
    using idx(2) fl by (intro nth_concat_uniform) simp_all
  then show ?case using idx fl Cons.IH [OF idx(3)] by simp
qed

lemma item_tabulate: "valid_index s idx \<Longrightarrow> item (tabulate s f) idx = f idx"
  using flat_index_less [of s idx] all_indices_nth [of s idx]
  by (simp add: item_def tabulate_def)

lemma shape_tabulate [simp]: "shape (tabulate s f) = s"
  by (simp add: tabulate_def)

lemma wf_tabulate: "wf_array (tabulate s f)"
  by (simp add: wf_array_def tabulate_def)

lemma flat_index_snoc:
  "length idx = length s \<Longrightarrow> flat_index (s @ [b]) (idx @ [i]) = flat_index s idx * b + i"
proof (induction s arbitrary: idx)
  case Nil
  then show ?case by simp
next
  case (Cons n ns)
  then obtain j js where idx: "idx = j # js" "length js = length ns"
    by (cases idx) auto
  then show ?case using Cons.IH [of js] by (simp add: algebra_simps)
qed

lemma valid_index_snoc:
  "valid_index (s @ [b]) (idx @ [i]) = (valid_index s idx \<and> i < b)"
proof (cases "length idx = length s")
  case True
  then show ?thesis by (simp add: valid_index_def list_all2_append)
next
  case False
  then show ?thesis by (auto simp: valid_index_def dest: list_all2_lengthD)
qed

lemma swap_list_rotate:
  "swap_list 0 (length xs) (xs @ [b]) = b # rotate1 xs"
  by (cases xs) (simp_all add: swap_list_def nth_append)

lemma swap_list_unrotate:
  "swap_list 0 (length xs) (i # rotate1 xs) = xs @ [i]"
  by (cases xs) (simp_all add: swap_list_def nth_append)

lemma valid_index_rotate1: "valid_index (rotate1 s) (rotate1 idx) = valid_index s idx"
proof (cases s)
  case Nil
  then show ?thesis by (cases idx) simp_all
next
  case (Cons n ns)
  then show ?thesis
    by (cases idx) (auto simp: valid_index_snoc)
qed

lemma clamp_valid:
  "valid_index s idx \<Longrightarrow> map2 (\<lambda>d i. if d = 1 then 0 else i) s idx = idx"
proof (induction s arbitrary: idx)
  case Nil
  then show ?case by simp
next
  case (Cons n ns)
  then obtain i js where idx: "idx = i # js" "i < n" "valid_index ns js"
    by (auto simp: valid_index_Cons_iff)
  then show ?case using Cons.IH [OF idx(3)] by auto
qed

section \<open>The pose stage\<close>

lemma shape_apply_rotation [simp]: "shape (apply_rotation r v) = shape v"
  by (simp add: apply_rotation_def)

lemma stack_spec:
  assumes "arrays \<noteq> []" and "\<forall>b\<in>set arrays. shape b = s" and "axis \<le> length s"
  shows "\<exists>st. stack arrays axis = Inr st \<and> wf_array st
           \<and> shape st = take axis s @ length arrays # drop axis s
           \<and> (\<forall>idx. valid_index (shape st) idx \<longrightarrow>
                 item st idx = item (arrays ! (idx ! axis)) (take axis idx @ drop (Suc axis) idx))"
proof (cases arrays)
  case Nil
  then show ?thesis using assms(1) by simp
next
  case (Cons a as)
  then show ?thesis using assms(2,3)
    by (simp add: stack_def list_all_iff item_tabulate wf_tabulate)
qed

lemma add_nd_spec:
  assumes "broadcast_shapes (shape a) (shape b) = Inr s"
  shows "\<exists>r. add_nd a b = Inr r \<and> wf_array r \<and> shape r = s
           \<and> (\<forall>idx. valid_index s idx \<longrightarrow> item r idx = bitem a idx + bitem b idx)"
  using assms by (simp add: add_nd_def item_tabulate wf_tabulate)

lemma reshape_infer_3:
  "shape a = G @ [3] \<Longrightarrow> reshape_infer a [3] = Inr (NDArray [prod_list G, 3] (data a))"
  by (simp add: reshape_infer_def)

lemma div_mod_block:
  "0 < n \<Longrightarrow> (n * b * 3) mod (n * 3) = 0 \<and> (n * b * 3) div (n * 3) = (b::nat)"
proof -
  assume "0 < n"
  have "n * b * 3 = b * (n * 3)" by simp
  then show ?thesis using \<open>0 < n\<close> by (simp del: mult_Suc_right)
qed

lemma point_flat:
  assumes "shape grid = G @ [3]" and "valid_index G js"
  shows "point (NDArray [prod_list G, 3] (data grid)) [flat_index G js] = point grid js"
  using assms valid_index_length [OF assms(2)]
  by (simp add: point_def item_def flat_index_snoc)

lemma vec_list_nth: "[vec_list v ! 0, vec_list v ! 1, vec_list v ! 2] = vec_list v"
  by (cases v) simp

lemma item_apply_rotation:
  assumes "shape v = [n, 3]" and "i < n" and "c < 3"
  shows "item (apply_rotation r v) [i, c] = vec_list (rot_vec r (point v [i])) ! c"
proof -
  have "valid_index (shape v) [i, c]" using assms by simp
  then show ?thesis unfolding apply_rotation_def by (simp add: item_tabulate)
qed

lemma gsc_spec:
  assumes sh: "shape grid = G @ [3]" and pos: "0 < prod_list G" and ne: "orientations \<noteq> []"
    and bc: "broadcast_shapes [prod_list G, length orientations, 3] (shape positions)
               = Inr [prod_list G, length orientations, 3]"
  shows "\<exists>r. generate_sampling_coordinates grid positions orientations = Inr r
           \<and> shape r = length orientations # G @ [3] \<and> wf_array r
           \<and> (\<forall>js b c. valid_index G js \<longrightarrow> b < length orientations \<longrightarrow> c < 3 \<longrightarrow>
                 data r ! ((flat_index G js * length orientations + b) * 3 + c)
                 = vec_list (rot_vec (orientations ! b) (point grid js)) ! c
                   + bitem positions [flat_index G js, b, c])"
proof -
  let ?N = "prod_list G" and ?B = "length orientations"
  let ?gc = "NDArray [?N, 3] (data grid)"
  let ?rot = "map (\<lambda>orientation. apply_rotation orientation ?gc) orientations"
  have r1: "reshape_infer grid [3] = Inr ?gc" using sh by (rule reshape_infer_3)
  have "\<exists>st. stack ?rot 1 = Inr st \<and> wf_array st
           \<and> shape st = take 1 [?N, 3] @ length ?rot # drop 1 [?N, 3]
           \<and> (\<forall>idx. valid_index (shape st) idx \<longrightarrow>
                 item st idx = item (?rot ! (idx ! 1)) (take 1 idx @ drop (Suc 1) idx))"
    using ne by (intro stack_spec) simp_all
  then obtain st where st: "stack ?rot 1 = Inr st" "shape st = [?N, ?B, 3]"
    and st_item: "\<And>idx. valid_index [?N, ?B, 3] idx \<Longrightarrow>
                 item st idx = item (?rot ! (idx ! 1)) (take 1 idx @ drop (Suc 1) idx)"
    by auto
  have "broadcast_shapes (shape st) (shape positions) = Inr [?N, ?B, 3]"
    using bc st(2) by simp
  from add_nd_spec [OF this]
  obtain rs where rs: "add_nd st positions = Inr rs" "wf_array rs" "shape rs = [?N, ?B, 3]"
    and rs_item: "\<And>idx. valid_index [?N, ?B, 3] idx \<Longrightarrow>
                    item rs idx = bitem st idx + bitem positions idx"
    by auto
  let ?r = "NDArray (?B # G @ [3]) (data rs)"
  have r2: "reshape_infer rs (G @ [3]) = Inr ?r"
    using pos div_mod_block [OF pos, of ?B] rs(3)
    by (simp add: reshape_infer_def del: mult_Suc_right)
  have "generate_sampling_coordinates grid positions orientations =
          thenR (reshape_infer grid [3]) (\<lambda>grid_coords.
            thenR (stack (map (\<lambda>orientation. apply_rotation orientation grid_coords)
                            orientations) 1) (\<lambda>stacked.
            thenR (add_nd stacked positions) (\<lambda>rotated_shifted.
              reshape_infer rotated_shifted (G @ [3]))))"
    by (simp only: generate_sampling_coordinates_def Let_def sh)
  also have "\<dots> = Inr ?r"
    by (simp only: r1 thenR_Inr st(1) rs(1) r2)
  finally have res: "generate_sampling_coordinates grid positions orientations = Inr ?r" .
  have wf: "wf_array ?r" using rs(2,3) by (simp add: wf_array_def mult.commute mult.left_commute)
  have el: "data rs ! ((flat_index G js * ?B + b) * 3 + c)
              = vec_list (rot_vec (orientations ! b) (point grid js)) ! c
                + bitem positions [flat_index G js, b, c]"
    if js: "valid_index G js" and b: "b < ?B" and c: "c < 3" for js b c
  proof -
    let ?n = "flat_index G js"
    have n: "?n < ?N" using js by (rule flat_index_less)
    have v3: "valid_index [?N, ?B, 3] [?n, b, c]" using n b c by simp
    have "data rs ! ((?n * ?B + b) * 3 + c) = item rs [?n, b, c]"
      by (simp add: item_def rs(3) algebra_simps)
    also have "\<dots> = bitem st [?n, b, c] + bitem positions [?n, b, c]"
      using v3 by (rule rs_item)
    also have "bitem st [?n, b, c] = item st [?n, b, c]"
      using clamp_valid [OF v3] by (simp add: bitem_def st(2))
    also have "\<dots> = item (?rot ! b) [?n, c]"
      using st_item [OF v3] by simp
    also have "\<dots> = item (apply_rotation (orientations ! b) ?gc) [?n, c]"
      using b by simp
    also have "\<dots> = vec_list (rot_vec (orientations ! b) (point ?gc [?n])) ! c"
      using n c by (intro item_apply_rotation) simp_all
    also have "point ?gc [?n] = point grid js"
      using sh js by (rule point_flat)
    finally show ?thesis .
  qed
  show ?thesis using res wf el by simp
qed

section \<open>The sampling stage\<close>

lemma swap_list_commute: "swap_list i j xs = swap_list j i xs"
  by (cases "i = j") (simp_all add: swap_list_def list_update_swap)

lemma normalize_axis_last: "normalize_axis (- 1) (Suc n) = Inr n"
  by (simp add: normalize_axis_def)

lemma normalize_axis_first: "normalize_axis 0 (Suc n) = Inr 0"
  by (simp add: normalize_axis_def)

lemma swapaxes_last_first:
  assumes "shape a = G @ [b]"
  shows "swapaxes a (- 1) 0 =
           Inr (tabulate (b # rotate1 G) (\<lambda>idx. item a (swap_list 0 (length G) idx)))"
  using assms
  by (simp add: swapaxes_def normalize_axis_last normalize_axis_first
        swap_list_commute [of "length G" 0] swap_list_rotate)

lemma map_coordinates_spec:
  assumes "shape coordinates = [3, m]" and "length (shape input) = 3"
    and "0 \<le> order" and "order \<le> 5"
  shows "map_coordinates interp input coordinates order =
           Inr (tabulate [m] (\<lambda>idx. interp input order
                  [item coordinates (0 # idx), item coordinates (1 # idx),
                   item coordinates (2 # idx)]))"
proof -
  have "[0..<3] = [0, 1, 2::nat]" by (simp add: upt_rec)
  then show ?thesis using assms by (simp add: map_coordinates_def)
qed

lemma sample_unfold:
  assumes "shape coordinates = b # G @ [t]"
  shows "sample_volume_at_coordinates interp volume coordinates order =
           thenR (reshape_infer coordinates [3]) (\<lambda>coords.
           thenR (map_coordinates interp volume (transpose_nd coords) order) (\<lambda>sampled_volume.
           thenR (reshape sampled_volume (G @ [b])) (\<lambda>reshaped. swapaxes reshaped (- 1) 0)))"
proof (cases G)
  case Nil
  then show ?thesis using assms by (simp add: sample_volume_at_coordinates_def)
next
  case (Cons g gs)
  then show ?thesis using assms by (simp add: sample_volume_at_coordinates_def)
qed

lemma sample_spec:
  assumes sh: "shape coordinates = b # G @ [3]" and vol: "length (shape volume) = 3"
    and ord: "0 \<le> order" "order \<le> 5"
  shows "\<exists>r. sample_volume_at_coordinates interp volume coordinates order = Inr r
           \<and> shape r = b # rotate1 G \<and> wf_array r
           \<and> (\<forall>i js. i < b \<longrightarrow> valid_index G js \<longrightarrow>
                 item r (i # rotate1 js)
                 = interp volume order
                     [data coordinates ! ((flat_index G js * b + i) * 3),
                      data coordinates ! ((flat_index G js * b + i) * 3 + 1),
                      data coordinates ! ((flat_index G js * b + i) * 3 + 2)])"
proof -
  let ?M = "b * prod_list G"
  let ?c = "NDArray [?M, 3] (data coordinates)"
  let ?g = "\<lambda>idx. interp volume order
              [item (transpose_nd ?c) (0 # idx), item (transpose_nd ?c) (1 # idx),
               item (transpose_nd ?c) (2 # idx)]"
  let ?sv = "tabulate [?M] ?g"
  let ?rs = "NDArray (G @ [b]) (data ?sv)"
  let ?r = "tabulate (b # rotate1 G) (\<lambda>idx. item ?rs (swap_list 0 (length G) idx))"
  have r1: "reshape_infer coordinates [3] = Inr ?c"
    using reshape_infer_3 [of coordinates "b # G"] sh by simp
  have mc: "map_coordinates interp volume (transpose_nd ?c) order = Inr ?sv"
    using vol ord by (intro map_coordinates_spec) (simp_all add: transpose_nd_def)
  have r2: "reshape ?sv (G @ [b]) = Inr ?rs"
    by (simp add: reshape_def mult.commute)
  have sw: "swapaxes ?rs (- 1) 0 = Inr ?r"
    by (intro swapaxes_last_first) simp
  have "sample_volume_at_coordinates interp volume coordinates order =
           thenR (reshape_infer coordinates [3]) (\<lambda>coords.
           thenR (map_coordinates interp volume (transpose_nd coords) order) (\<lambda>sampled_volume.
           thenR (reshape sampled_volume (G @ [b])) (\<lambda>reshaped. swapaxes reshaped (- 1) 0)))"
    using sh by (rule sample_unfold)
  also have "\<dots> = Inr ?r" by (simp only: r1 thenR_Inr mc r2 sw)
  finally have res: "sample_volume_at_coordinates interp volume coordinates order = Inr ?r" .
  have el: "item ?r (i # rotate1 js)
              = interp volume order
                     [data coordinates ! ((flat_index G js * b + i) * 3),
                      data coordinates ! ((flat_index G js * b + i) * 3 + 1),
                      data coordinates ! ((flat_index G js * b + i) * 3 + 2)]"
    if i: "i < b" and js: "valid_index G js" for i js
  proof -
    let ?q = "flat_index G js * b + i"
    have len: "length js = length G" using js by (rule valid_index_length)
    have n: "flat_index G js < prod_list G" using js by (rule flat_index_less)
    have q: "?q < ?M" using block_bound [OF n i] by (simp add: mult.commute)
    have v: "valid_index (b # rotate1 G) (i # rotate1 js)"
      using i js by (simp add: valid_index_rotate1)
    have tr: "item (transpose_nd ?c) [c, ?q] = data coordinates ! (?q * 3 + c)" if "c < 3" for c
    proof -
      have "valid_index (rev (shape ?c)) [c, ?q]" using that q by simp
      then have "item (transpose_nd ?c) [c, ?q] = item ?c (rev [c, ?q])"
        unfolding transpose_nd_def by (rule item_tabulate)
      then show ?thesis by (simp add: item_def)
    qed
    have "item ?r (i # rotate1 js) = item ?rs (swap_list 0 (length G) (i # rotate1 js))"
      using v by (rule item_tabulate)
    also have "\<dots> = item ?rs (js @ [i])"
      using swap_list_unrotate [of js i] len by simp
    also have "\<dots> = data ?sv ! ?q"
      using len by (simp add: item_def flat_index_snoc)
    also have "\<dots> = item ?sv [?q]" by (simp add: item_def)
    also have "\<dots> = ?g [?q]" using q by (intro item_tabulate) simp
    also have "\<dots> = interp volume order
                     [data coordinates ! (?q * 3), data coordinates ! (?q * 3 + 1),
                      data coordinates ! (?q * 3 + 2)]"
      using tr [of 0] tr [of 1] tr [of 2] by simp
    finally show ?thesis .
  qed
  have "shape ?r = b # rotate1 G" by simp
  moreover have "wf_array ?r" by (rule wf_tabulate)
  ultimately show ?thesis using res el by blast
qed

section \<open>The two stages composed\<close>

lemma vec_list_vadd:
  "c < 3 \<Longrightarrow> vec_list (vadd u v) ! c = vec_list u ! c + vec_list v ! c"
proof -
  assume "c < 3"
  then have "c = 0 \<or> c = 1 \<or> c = 2" by auto
  then show ?thesis by (cases u; cases v) auto
qed

lemma vec_list_point:
  "c < 3 \<Longrightarrow> vec_list (point a idx) ! c = item a (idx @ [c])"
proof -
  assume "c < 3"
  then have "c = 0 \<or> c = 1 \<or> c = 2" by auto
  then show ?thesis by (auto simp: point_def)
qed

lemma bitem_rows:
  assumes "shape positions = [m, 3]" and "b < m" and "c < 3"
  shows "bitem positions [n, b, c] = item positions [b, c]"
  using assms by (auto simp: bitem_def)

lemma broadcast_rows: "broadcast_shapes [n, b, 3] [b, 3] = Inr [n, b, 3]"
  by (simp add: broadcast_shapes_def)

lemma prod_list_pos: "0 \<notin> set G \<Longrightarrow> 0 < prod_list (G :: nat list)"
  by (induction G) auto

text \<open>
  The layout of the pose stage for \<open>B\<close> positions and \<open>B\<close> orientations: the point
  of flat index \<open>n * B + b\<close> is grid point \<open>n\<close> under pose \<open>b\<close>.
\<close>

lemma gsc_point_major:
  assumes sh: "shape grid = G @ [3]" and pos: "0 \<notin> set G" and ne: "orientations \<noteq> []"
    and ps: "shape positions = [length orientations, 3]"
  shows "\<exists>r. generate_sampling_coordinates grid positions orientations = Inr r
           \<and> shape r = length orientations # G @ [3] \<and> wf_array r
           \<and> (\<forall>js b c. valid_index G js \<longrightarrow> b < length orientations \<longrightarrow> c < 3 \<longrightarrow>
                 data r ! ((flat_index G js * length orientations + b) * 3 + c)
                 = vec_list (vadd (rot_vec (orientations ! b) (point grid js))
                                  (point positions [b])) ! c)"
proof -
  have bc: "broadcast_shapes [prod_list G, length orientations, 3] (shape positions)
               = Inr [prod_list G, length orientations, 3]"
    using ps by (simp add: broadcast_rows)
  from gsc_spec [OF sh prod_list_pos [OF pos] ne bc]
  obtain r where r: "generate_sampling_coordinates grid positions orientations = Inr r"
      "shape r = length orientations # G @ [3]" "wf_array r"
    and el: "\<And>js b c. valid_index G js \<Longrightarrow> b < length orientations \<Longrightarrow> c < 3 \<Longrightarrow>
                 data r ! ((flat_index G js * length orientations + b) * 3 + c)
                 = vec_list (rot_vec (orientations ! b) (point grid js)) ! c
                   + bitem positions [flat_index G js, b, c]"
    by blast
  have "data r ! ((flat_index G js * length orientations + b) * 3 + c)
          = vec_list (vadd (rot_vec (orientations ! b) (point grid js))
                           (point positions [b])) ! c"
    if "valid_index G js" "b < length orientations" "c < 3" for js b c
    using el [OF that] that bitem_rows [OF ps that(2,3)]
    by (simp add: vec_list_vadd vec_list_point)
  then show ?thesis using r by blast
qed

text \<open>
  C3.  A grid with spatial axes \<open>G = (g1, ..., gk)\<close>, \<open>B\<close> positions and \<open>B\<close>
  orientations, a 3-D volume: the pose stage followed by the sampling stage returns an
  array of shape \<open>(B, g2, ..., gk, g1)\<close> whose element at \<open>(i, j2, ..., jk, j1)\<close> is the
  volume interpolated at \<open>orientations[i].apply(grid[j1, ..., jk]) + positions[i]\<close>.
\<close>

theorem pipeline_per_pose:
  assumes sh: "shape sampling_grid = G @ [3]" and pos: "0 \<notin> set G"
    and ne: "orientations \<noteq> []" and ps: "shape positions = [length orientations, 3]"
    and vol: "length (shape volume) = 3" and ord: "0 \<le> order" "order \<le> 5"
  shows "\<exists>coords r.
           generate_sampling_coordinates sampling_grid positions orientations = Inr coords
           \<and> sample_volume_at_coordinates interp volume coords order = Inr r
           \<and> shape r = length orientations # rotate1 G
           \<and> (\<forall>i js. i < length orientations \<longrightarrow> valid_index G js \<longrightarrow>
                 item r (i # rotate1 js)
                 = interp volume order
                     (vec_list (vadd (rot_vec (orientations ! i) (point sampling_grid js))
                                     (point positions [i]))))"
proof -
  let ?B = "length orientations"
  from gsc_point_major [OF sh pos ne ps]
  obtain coords where c: "generate_sampling_coordinates sampling_grid positions orientations
                            = Inr coords"
      "shape coords = ?B # G @ [3]"
    and cel: "\<And>js b c. valid_index G js \<Longrightarrow> b < ?B \<Longrightarrow> c < 3 \<Longrightarrow>
                 data coords ! ((flat_index G js * ?B + b) * 3 + c)
                 = vec_list (vadd (rot_vec (orientations ! b) (point sampling_grid js))
                                  (point positions [b])) ! c"
    by blast
  from sample_spec [OF c(2) vol ord, of interp]
  obtain r where r: "sample_volume_at_coordinates interp volume coords order = Inr r"
      "shape r = ?B # rotate1 G"
    and rel: "\<And>i js. i < ?B \<Longrightarrow> valid_index G js \<Longrightarrow>
                 item r (i # rotate1 js)
                 = interp volume order
                     [data coords ! ((flat_index G js * ?B + i) * 3),
                      data coords ! ((flat_index G js * ?B + i) * 3 + 1),
                      data coords ! ((flat_index G js * ?B + i) * 3 + 2)]"
    by blast
  have "item r (i # rotate1 js)
          = interp volume order
              (vec_list (vadd (rot_vec (orientations ! i) (point sampling_grid js))
                              (point positions [i])))"
    if i: "i < ?B" and js: "valid_index G js" for i js
  proof -
    let ?v = "vadd (rot_vec (orientations ! i) (point sampling_grid js)) (point positions [i])"
    let ?q = "flat_index G js * ?B + i"
    have "data coords ! (?q * 3) = vec_list ?v ! 0"
      using cel [OF js i, of 0] by simp
    moreover have "data coords ! (?q * 3 + 1) = vec_list ?v ! 1"
      using cel [OF js i, of 1] by simp
    moreover have "data coords ! (?q * 3 + 2) = vec_list ?v ! 2"
      using cel [OF js i, of 2] by simp
    ultimately show ?thesis using rel [OF i js] by (simp only: vec_list_nth)
  qed
  then show ?thesis using c(1) r by blast
qed

theorem pipeline_per_pose_witness:
  "\<exists>coords r.
     generate_sampling_coordinates grid_demo positions_demo
       [identity_rotation, identity_rotation] = Inr coords
     \<and> sample_volume_at_coordinates nearest_interp volume_demo coords 0 = Inr r
     \<and> shape r = [2, 2]
     \<and> item r [1, 0] = nearest_interp volume_demo 0 [1, 1, 0]"
proof -
  have "shape grid_demo = [2] @ [3]" by (simp add: grid_demo_def)
  moreover have "shape positions_demo = [length [identity_rotation, identity_rotation], 3]"
    by (simp add: positions_demo_def)
  moreover have "length (shape volume_demo) = 3" by (simp add: volume_demo_def)
  ultimately obtain coords r where
    a: "generate_sampling_coordinates grid_demo positions_demo
       [identity_rotation, identity_rotation] = Inr coords"
     "sample_volume_at_coordinates nearest_interp volume_demo coords 0 = Inr r"
     "shape r = length [identity_rotation, identity_rotation] # rotate1 [2]"
    and b: "\<And>i js. i < length [identity_rotation, identity_rotation] \<Longrightarrow> valid_index [2] js \<Longrightarrow>
                 item r (i # rotate1 js)
                 = nearest_interp volume_demo 0
                     (vec_list (vadd (rot_vec ([identity_rotation, identity_rotation] ! i)
                                        (point grid_demo js))
                                     (point positions_demo [i])))"
    using pipeline_per_pose [of grid_demo "[2]" "[identity_rotation, identity_rotation]"
            positions_demo volume_demo 0 nearest_interp]
    by auto
  have "item r (1 # rotate1 [0]) = nearest_interp volume_demo 0
                     (vec_list (vadd (rot_vec ([identity_rotation, identity_rotation] ! 1)
                                        (point grid_demo [0]))
                                     (point positions_demo [1])))"
    by (rule b) simp_all
  then have "item r [1, 0] = nearest_interp volume_demo 0 [1, 1, 0]"
    by (simp add: identity_rotation_def point_def item_def grid_demo_def positions_demo_def)
  then show ?thesis using a by auto
qed

section \<open>Shape and errors of the sampling stage\<close>

text \<open>
  C2.  The claim and the docstring give the result the shape \<open>(*G, B)\<close>.  The code
  reshapes to that shape and then swaps the first and last axes: a batch of 2 over a
  grid of 3 points comes back with shape \<open>(2, 3)\<close>, not \<open>(3, 2)\<close>, and a batch of 2
  over a grid of shape \<open>(1, 2)\<close> with shape \<open>(2, 2, 1)\<close>, not \<open>(1, 2, 2)\<close>.
\<close>

theorem sample_shape_at_input:
  "sample_volume_at_coordinates nearest_interp volume_demo coords_demo 0
     = Inr (NDArray [2, 3] [0, 2, 10, 1, 9, 11])
   \<and> shape (NDArray [2, 3] [0, 2, 10, 1, 9, 11 :: real]) \<noteq> [3, 2]
   \<and> sample_volume_at_coordinates nearest_interp volume_demo coords_plane 0
     = Inr (NDArray [2, 2, 1] [0, 2, 1, 13])
   \<and> shape (NDArray [2, 2, 1] [0, 2, 1, 13 :: real]) \<noteq> [1, 2, 2]"
  by code_simp

lemma map_coordinates_Inr:
  assumes "map_coordinates interp input coordinates order = Inr sv"
  shows "shape sv = tl (shape coordinates) \<and> hd (shape coordinates) = length (shape input)"
  using assms by (auto simp: map_coordinates_def Let_def split: if_splits)

lemma trailing_size_mismatch:
  assumes "(m * t) mod 3 = 0" and "t \<noteq> 3" and "0 < (m::nat)"
  shows "(m * t) div 3 \<noteq> m"
proof
  assume "(m * t) div 3 = m"
  then have "m * t = m * 3" using assms(1) by (metis mod_0_imp_dvd dvd_div_mult_self)
  then show False using assms(2,3) by simp
qed

text \<open>C8 as stated fails on an empty batch whose trailing length is 5: nothing is raised.\<close>

theorem sample_trailing_counterexample:
  "sample_volume_at_coordinates nearest_interp volume_demo coords_empty 0
     = Inr (NDArray [0] [])"
  by code_simp

text \<open>
  C8, amended.  The call raises whenever the volume is not 3-dimensional, and whenever
  the trailing length of the coordinates is not 3 and no axis before it has length 0.
\<close>

theorem sample_rejects:
  assumes "length (shape volume) \<noteq> 3
           \<or> (\<exists>pre t. shape coordinates = pre @ [t] \<and> t \<noteq> 3 \<and> 0 \<notin> set pre)"
  shows "isl (sample_volume_at_coordinates interp volume coordinates order)"
proof (cases "shape coordinates")
  case Nil
  then show ?thesis by (simp add: sample_volume_at_coordinates_def)
next
  case (Cons b rest)
  show ?thesis
  proof (cases rest rule: rev_cases)
    case Nil
    then show ?thesis using Cons by (simp add: sample_volume_at_coordinates_def)
  next
    case (snoc G t)
    let ?K = "prod_list (shape coordinates)"
    let ?c = "NDArray [?K div 3, 3] (data coordinates)"
    have sh: "shape coordinates = b # G @ [t]" using Cons snoc by simp
    have unf: "sample_volume_at_coordinates interp volume coordinates order =
           thenR (reshape_infer coordinates [3]) (\<lambda>coords.
           thenR (map_coordinates interp volume (transpose_nd coords) order) (\<lambda>sampled_volume.
           thenR (reshape sampled_volume (G @ [b])) (\<lambda>reshaped. swapaxes reshaped (- 1) 0)))"
      using sh by (rule sample_unfold)
    show ?thesis
    proof (cases "?K mod 3 = 0")
      case False
      then have "reshape_infer coordinates [3] = Inl ValueError"
        by (simp add: reshape_infer_def)
      then show ?thesis using unf by simp
    next
      case True
      then have r1: "reshape_infer coordinates [3] = Inr ?c"
        by (simp add: reshape_infer_def)
      show ?thesis
      proof (cases "map_coordinates interp volume (transpose_nd ?c) order")
        case (Inl e)
        then show ?thesis using unf r1 by simp
      next
        case (Inr sv)
        from map_coordinates_Inr [OF Inr]
        have sv: "shape sv = [?K div 3]" and vol: "length (shape volume) = 3"
          by (simp_all add: transpose_nd_def)
        from vol assms obtain pre t' where
          p: "shape coordinates = pre @ [t']" "t' \<noteq> 3" "0 \<notin> set pre"
          by blast
        from p(1) sh have "pre = b # G" "t' = t" by simp_all
        then have t: "t \<noteq> 3" and pos: "0 < b * prod_list G"
          using p(2,3) prod_list_pos [of "b # G"] by simp_all
        have K: "?K = (b * prod_list G) * t" using sh by simp
        have "(b * prod_list G * t) div 3 \<noteq> b * prod_list G"
          using True t pos unfolding K by (intro trailing_size_mismatch)
        then have "reshape sv (G @ [b]) = Inl ValueError"
          using sv K by (simp add: reshape_def mult.commute)
        then show ?thesis using unf r1 Inr by simp
      qed
    qed
  qed
qed

theorem sample_rejects_witness:
  "isl (sample_volume_at_coordinates nearest_interp volume_demo coords_wide 0)
   \<and> isl (sample_volume_at_coordinates nearest_interp (NDArray [2, 2] [1, 2, 3, 4])
            coords_demo 0)"
proof -
  have "shape coords_wide = [1, 2] @ [6]" by (simp add: coords_wide_def)
  then have "isl (sample_volume_at_coordinates nearest_interp volume_demo coords_wide 0)"
    by (intro sample_rejects) auto
  moreover
  have "isl (sample_volume_at_coordinates nearest_interp (NDArray [2, 2] [1, 2, 3, 4])
            coords_demo 0)"
    by (intro sample_rejects) simp
  ultimately show ?thesis by simp
qed

section \<open>Layout and errors of the pose stage\<close>

text \<open>
  C1.  Two grid points, two poses.  The claim puts
  \<open>orientations[0].apply(grid[1]) + positions[0] = (2, 0, 0)\<close> at index \<open>(0, 1)\<close>;
  the code puts there grid point 0 under pose 1, \<open>(0, 2, 0)\<close>.
\<close>

theorem pose_batch_layout_at_input:
  "generate_sampling_coordinates grid_demo positions_demo [identity_rotation, quarter_turn_z]
     = Inr (NDArray [2, 2, 3] [1, 0, 0, 0, 2, 0, 2, 0, 0, 0, 3, 0])
   \<and> point (NDArray [2, 2, 3] [1, 0, 0, 0, 2, 0, 2, 0, 0, 0, 3, 0]) [0, 1] = (0, 2, 0)
   \<and> vadd (rot_vec identity_rotation (point grid_demo [1])) (point positions_demo [0])
       = (2, 0, 0)
   \<and> vadd (rot_vec quarter_turn_z (point grid_demo [0])) (point positions_demo [1])
       = (0, 2, 0)"
  by code_simp

lemma rot_vec_identity [simp]: "rot_vec identity_rotation v = v"
  by (cases v) (simp add: identity_rotation_def)

lemma point_leading_zero:
  assumes "shape r = 1 # G @ [3]" and "valid_index G js"
  shows "point r (0 # js)
           = (data r ! (flat_index G js * 3), data r ! (flat_index G js * 3 + 1),
              data r ! (flat_index G js * 3 + 2))"
  using assms valid_index_length [OF assms(2)]
  by (simp add: point_def item_def flat_index_snoc)

text \<open>With a single pose the all-zero grid is sent to the position at every point.\<close>

lemma zero_grid_single_pose:
  assumes sh: "shape sampling_grid = G @ [3]" and pos: "0 \<notin> set G"
    and ps: "shape positions = [1, 3]"
    and zero: "\<forall>js. valid_index G js \<longrightarrow> point sampling_grid js = (0, 0, 0)"
  shows "\<exists>r. generate_sampling_coordinates sampling_grid positions [identity_rotation] = Inr r
           \<and> shape r = 1 # G @ [3]
           \<and> (\<forall>js. valid_index G js \<longrightarrow> point r (0 # js) = point positions [0])"
proof -
  have ps': "shape positions = [length [identity_rotation], 3]" using ps by simp
  from gsc_point_major [OF sh pos _ ps']
  obtain r where r: "generate_sampling_coordinates sampling_grid positions [identity_rotation]
                       = Inr r" "shape r = 1 # G @ [3]"
    and el: "\<And>js c. valid_index G js \<Longrightarrow> c < 3 \<Longrightarrow>
                 data r ! ((flat_index G js * 1 + 0) * 3 + c)
                 = vec_list (vadd (rot_vec identity_rotation (point sampling_grid js))
                                  (point positions [0])) ! c"
    by auto
  have "point r (0 # js) = point positions [0]" if js: "valid_index G js" for js
  proof -
    obtain x y z where p: "point positions [0] = (x, y, z)" by (cases "point positions [0]")
    have z: "point sampling_grid js = (0, 0, 0)" using zero js by blast
    show ?thesis
      using el [OF js, of 0] el [OF js, of 1] el [OF js, of 2]
      by (simp add: point_leading_zero [OF r(2) js] z p)
  qed
  then show ?thesis using r by blast
qed

text \<open>
  C9.  An all-zero grid of two points, positions \<open>p0 = (1, 2, 3)\<close> and
  \<open>p1 = (4, 5, 6)\<close>, identity orientations: batch element 0 holds \<open>p0\<close> and \<open>p1\<close>,
  not \<open>p0\<close> twice.
\<close>

theorem zero_grid_batch_at_input:
  "generate_sampling_coordinates zero_grid positions_pair [identity_rotation, identity_rotation]
     = Inr (NDArray [2, 2, 3] [1, 2, 3, 4, 5, 6, 1, 2, 3, 4, 5, 6])
   \<and> point (NDArray [2, 2, 3] [1, 2, 3, 4, 5, 6, 1, 2, 3, 4, 5, 6]) [0, 1] = (4, 5, 6)
   \<and> point positions_pair [0] = (1, 2, 3)"
  by code_simp

text \<open>
  C7 as stated fails.  Two positions and one orientation give a result.  With three
  positions and two orientations the call does fail, but not before the rotations:
  the rotated copies are computed and stacked, and the addition of the positions is
  what raises.
\<close>

theorem length_mismatch_counterexample:
  "generate_sampling_coordinates grid_demo positions_demo [identity_rotation]
     = Inr (NDArray [2, 2, 3] [1, 0, 0, 1, 1, 0, 2, 0, 0, 2, 1, 0])
   \<and> reshape_infer grid_demo [3] = Inr (NDArray [2, 3] [1, 0, 0, 2, 0, 0])
   \<and> stack [apply_rotation identity_rotation (NDArray [2, 3] [1, 0, 0, 2, 0, 0]),
             apply_rotation quarter_turn_z (NDArray [2, 3] [1, 0, 0, 2, 0, 0])] 1
       = Inr (NDArray [2, 2, 3] [1, 0, 0, 0, 1, 0, 2, 0, 0, 0, 2, 0])
   \<and> add_nd (NDArray [2, 2, 3] [1, 0, 0, 0, 1, 0, 2, 0, 0, 0, 2, 0]) positions_triple
       = Inl ValueError"
  by code_simp

lemma broadcast_rows_mismatch:
  "p \<noteq> b \<Longrightarrow> p \<noteq> 1 \<Longrightarrow> b \<noteq> 1 \<Longrightarrow> broadcast_shapes [n, b, 3] [p, 3] = Inl ValueError"
  by (simp add: broadcast_shapes_def)

lemma broadcast_rows_one:
  "p = 1 \<or> b = 1 \<Longrightarrow>
     broadcast_shapes [n, b, 3] [p, 3] = Inr [n, if p = 1 then b else p, 3]"
  by (auto simp: broadcast_shapes_def)

lemma gsc_unfold_stack:
  assumes "reshape_infer sampling_grid [3] = Inr gc"
  shows "generate_sampling_coordinates sampling_grid positions orientations =
            thenR (stack (map (\<lambda>orientation. apply_rotation orientation gc) orientations) 1)
              (\<lambda>stacked.
            thenR (add_nd stacked positions) (\<lambda>rotated_shifted.
              reshape_infer rotated_shifted (shape sampling_grid)))"
  by (simp only: generate_sampling_coordinates_def Let_def assms thenR_Inr)

lemma stack_rotated:
  assumes "orientations \<noteq> []" and "shape gc = [k, 3]"
  shows "\<exists>st. stack (map (\<lambda>orientation. apply_rotation orientation gc) orientations) 1
                 = Inr st
              \<and> shape st = [k, length orientations, 3]"
proof -
  let ?rot = "map (\<lambda>orientation. apply_rotation orientation gc) orientations"
  have "\<exists>st. stack ?rot 1 = Inr st \<and> wf_array st
           \<and> shape st = take 1 [k, 3] @ length ?rot # drop 1 [k, 3]
           \<and> (\<forall>idx. valid_index (shape st) idx \<longrightarrow>
                 item st idx = item (?rot ! (idx ! 1)) (take 1 idx @ drop (Suc 1) idx))"
    using assms by (intro stack_spec) simp_all
  then show ?thesis by auto
qed

text \<open>No orientation: \<open>np.stack\<close> refuses the empty list, whatever the grid.\<close>

lemma gsc_no_orientation:
  "isl (generate_sampling_coordinates sampling_grid positions [])"
proof (cases "reshape_infer sampling_grid [3]")
  case (Inl e)
  then show ?thesis by (simp add: generate_sampling_coordinates_def)
next
  case (Inr gc)
  show ?thesis unfolding gsc_unfold_stack [OF Inr] by (simp add: stack_def)
qed

text \<open>
  At least one orientation, and lengths that do not broadcast: the stack is built and
  the addition raises.
\<close>

lemma gsc_fails_at_addition:
  assumes gc: "reshape_infer sampling_grid [3] = Inr gc"
    and ps: "shape positions = [p, 3]" and os: "orientations \<noteq> []"
    and ne: "p \<noteq> length orientations" and p1: "p \<noteq> 1" and b1: "length orientations \<noteq> 1"
  shows "\<exists>st. stack (map (\<lambda>orientation. apply_rotation orientation gc) orientations) 1
                 = Inr st
              \<and> add_nd st positions = Inl ValueError
              \<and> generate_sampling_coordinates sampling_grid positions orientations
                  = Inl ValueError"
proof -
  obtain k where k: "shape gc = [k, 3]"
    using gc by (auto simp: reshape_infer_def Let_def split: if_splits)
  from stack_rotated [OF os k]
  obtain st where st: "stack (map (\<lambda>orientation. apply_rotation orientation gc)
                                orientations) 1 = Inr st"
      "shape st = [k, length orientations, 3]"
    by blast
  have ad: "add_nd st positions = Inl ValueError"
    using broadcast_rows_mismatch [OF ne p1 b1] by (simp add: add_nd_def st(2) ps)
  have "generate_sampling_coordinates sampling_grid positions orientations = Inl ValueError"
    by (simp only: gsc_unfold_stack [OF gc] st(1) thenR_Inr ad thenR_Inl)
  then show ?thesis using st(1) ad by blast
qed

text \<open>
  At least one orientation, a grid without a zero-length axis, and one of the two
  lengths equal to 1: broadcasting applies and the call returns.
\<close>

lemma gsc_returns_on_broadcast:
  assumes sh: "shape sampling_grid = G @ [3]" and pos: "0 \<notin> set G"
    and ps: "shape positions = [p, 3]" and os: "orientations \<noteq> []"
    and one: "p = 1 \<or> length orientations = 1"
  shows "\<exists>r. generate_sampling_coordinates sampling_grid positions orientations = Inr r"
proof -
  let ?N = "prod_list G" and ?B = "length orientations"
  let ?m = "if p = 1 then ?B else p"
  have N: "0 < ?N" using pos by (rule prod_list_pos)
  have gc: "reshape_infer sampling_grid [3] = Inr (NDArray [?N, 3] (data sampling_grid))"
    using sh by (rule reshape_infer_3)
  from stack_rotated [OF os, of "NDArray [?N, 3] (data sampling_grid)" ?N]
  obtain st where st: "stack (map (\<lambda>orientation. apply_rotation orientation
                                      (NDArray [?N, 3] (data sampling_grid)))
                                orientations) 1 = Inr st"
      "shape st = [?N, ?B, 3]"
    by auto
  have "broadcast_shapes (shape st) (shape positions) = Inr [?N, ?m, 3]"
    unfolding st(2) ps using one by (rule broadcast_rows_one)
  from add_nd_spec [OF this]
  obtain rs where rs: "add_nd st positions = Inr rs" "shape rs = [?N, ?m, 3]"
    by blast
  have r2: "reshape_infer rs (G @ [3]) = Inr (NDArray (?m # G @ [3]) (data rs))"
    using N div_mod_block [OF N, of ?m] rs(2)
    by (simp add: reshape_infer_def del: mult_Suc_right)
  have "generate_sampling_coordinates sampling_grid positions orientations
          = Inr (NDArray (?m # G @ [3]) (data rs))"
    by (simp only: gsc_unfold_stack [OF gc] st(1) thenR_Inr rs(1) sh r2)
  then show ?thesis by blast
qed

text \<open>
  C7, amended.  Positions of shape \<open>(P, 3)\<close> and \<open>B\<close> orientations with \<open>P \<noteq> B\<close>.
  For every grid the call raises when \<open>B = 0\<close> or when neither \<open>P\<close> nor \<open>B\<close> is 1.
  For a grid of shape \<open>(*G, 3)\<close> without a zero-length axis it raises in exactly those
  cases.  For a grid of shape \<open>(*G, 3)\<close>, \<open>B \<ge> 1\<close> and neither length equal to 1, the
  rotated copies are computed and stacked and it is the addition of the positions that
  raises: the failure comes after the rotations, not before.
\<close>

theorem length_mismatch_rejected:
  assumes ps: "shape positions = [p, 3]" and ne: "p \<noteq> length orientations"
  shows "((orientations = [] \<or> (p \<noteq> 1 \<and> length orientations \<noteq> 1)) \<longrightarrow>
            isl (generate_sampling_coordinates sampling_grid positions orientations))
       \<and> (shape sampling_grid = G @ [3] \<and> 0 \<notin> set G \<longrightarrow>
            isl (generate_sampling_coordinates sampling_grid positions orientations)
              = (orientations = [] \<or> (p \<noteq> 1 \<and> length orientations \<noteq> 1)))
       \<and> (shape sampling_grid = G @ [3] \<and> orientations \<noteq> []
            \<and> p \<noteq> 1 \<and> length orientations \<noteq> 1 \<longrightarrow>
            (\<exists>gc st. reshape_infer sampling_grid [3] = Inr gc
               \<and> stack (map (\<lambda>orientation. apply_rotation orientation gc) orientations) 1
                   = Inr st
               \<and> add_nd st positions = Inl ValueError))"
proof (intro conjI impI)
  assume bad: "orientations = [] \<or> (p \<noteq> 1 \<and> length orientations \<noteq> 1)"
  show "isl (generate_sampling_coordinates sampling_grid positions orientations)"
  proof (cases "orientations = []")
    case True
    then show ?thesis by (simp add: gsc_no_orientation)
  next
    case False
    show ?thesis
    proof (cases "reshape_infer sampling_grid [3]")
      case (Inl e)
      then show ?thesis by (simp add: generate_sampling_coordinates_def)
    next
      case (Inr gc)
      from gsc_fails_at_addition [OF Inr ps False ne] bad False
      show ?thesis by auto
    qed
  qed
next
  assume g: "shape sampling_grid = G @ [3] \<and> 0 \<notin> set G"
  show "isl (generate_sampling_coordinates sampling_grid positions orientations)
          = (orientations = [] \<or> (p \<noteq> 1 \<and> length orientations \<noteq> 1))"
  proof (cases "orientations = [] \<or> (p \<noteq> 1 \<and> length orientations \<noteq> 1)")
    case True
    have "isl (generate_sampling_coordinates sampling_grid positions orientations)"
    proof (cases "orientations = []")
      case True
      then show ?thesis by (simp add: gsc_no_orientation)
    next
      case False
      have gc: "reshape_infer sampling_grid [3]
                  = Inr (NDArray [prod_list G, 3] (data sampling_grid))"
        using g by (intro reshape_infer_3) simp
      from gsc_fails_at_addition [OF gc ps False ne] True False
      show ?thesis by auto
    qed
    then show ?thesis using True by simp
  next
    case False
    then have os: "orientations \<noteq> []" and one: "p = 1 \<or> length orientations = 1"
      by auto
    from gsc_returns_on_broadcast [OF _ _ ps os one, of sampling_grid G] g
    have "\<not> isl (generate_sampling_coordinates sampling_grid positions orientations)"
      by auto
    then show ?thesis using False by simp
  qed
next
  assume a: "shape sampling_grid = G @ [3] \<and> orientations \<noteq> []
               \<and> p \<noteq> 1 \<and> length orientations \<noteq> 1"
  have gc: "reshape_infer sampling_grid [3]
              = Inr (NDArray [prod_list G, 3] (data sampling_grid))"
    using a by (intro reshape_infer_3) simp
  from gsc_fails_at_addition [OF gc ps _ ne] a
  show "\<exists>gc st. reshape_infer sampling_grid [3] = Inr gc
               \<and> stack (map (\<lambda>orientation. apply_rotation orientation gc) orientations) 1
                   = Inr st
               \<and> add_nd st positions = Inl ValueError"
    using gc by blast
qed

theorem length_mismatch_rejected_witness:
  "isl (generate_sampling_coordinates grid_demo positions_triple
          [identity_rotation, quarter_turn_z])
   \<and> isl (generate_sampling_coordinates grid_demo positions_single [])
   \<and> \<not> isl (generate_sampling_coordinates grid_demo positions_single
              [identity_rotation, quarter_turn_z])
   \<and> (\<exists>gc st. reshape_infer grid_demo [3] = Inr gc
         \<and> stack (map (\<lambda>orientation. apply_rotation orientation gc)
                    [identity_rotation, quarter_turn_z]) 1 = Inr st
         \<and> add_nd st positions_triple = Inl ValueError)"
proof -
  have g: "shape grid_demo = [2] @ [3] \<and> 0 \<notin> set [2::nat]" by (simp add: grid_demo_def)
  have "isl (generate_sampling_coordinates grid_demo positions_triple
          [identity_rotation, quarter_turn_z])"
    and "\<exists>gc st. reshape_infer grid_demo [3] = Inr gc
         \<and> stack (map (\<lambda>orientation. apply_rotation orientation gc)
                    [identity_rotation, quarter_turn_z]) 1 = Inr st
         \<and> add_nd st positions_triple = Inl ValueError"
    using length_mismatch_rejected [of positions_triple 3 "[identity_rotation, quarter_turn_z]"
            grid_demo "[2]"] g
    by (simp_all add: positions_triple_def)
  moreover have "isl (generate_sampling_coordinates grid_demo positions_single [])"
    using length_mismatch_rejected [of positions_single 1 "[]" grid_demo "[2]"]
    by (simp add: positions_single_def)
  moreover have "\<not> isl (generate_sampling_coordinates grid_demo positions_single
              [identity_rotation, quarter_turn_z])"
    using length_mismatch_rejected [of positions_single 1 "[identity_rotation, quarter_turn_z]"
            grid_demo "[2]"] g
    by (simp add: positions_single_def)
  ultimately show ?thesis by blast
qed

lemma broadcast_single: "broadcast_shapes [n, b, 3] [1, 3] = Inr [n, b, 3]"
  by (simp add: broadcast_shapes_def)

lemma broadcast_vector: "broadcast_shapes [n, b, 3] [3] = Inr [n, b, 3]"
  by (simp add: broadcast_shapes_def)

lemma bitem_single:
  assumes "shape positions = [1, 3] \<or> shape positions = [3]" and "c < 3"
  shows "bitem positions [n, b, c]
           = vec_list (data positions ! 0, data positions ! 1, data positions ! 2) ! c"
proof -
  have "c = 0 \<or> c = 1 \<or> c = 2" using assms(2) by auto
  then show ?thesis using assms(1) by (auto simp: bitem_def item_def numeral_2_eq_2)
qed

text \<open>
  C10.  One position (shape \<open>(1, 3)\<close>, or a bare 3-vector) and \<open>B > 1\<close> orientations:
  the call returns, and the one position is the translation of every rotated copy.
\<close>

theorem single_position_broadcast:
  assumes sh: "shape sampling_grid = G @ [3]" and pos: "0 \<notin> set G"
    and ps: "shape positions = [1, 3] \<or> shape positions = [3]"
    and many: "1 < length orientations"
  shows "\<exists>r. generate_sampling_coordinates sampling_grid positions orientations = Inr r
           \<and> shape r = length orientations # G @ [3]
           \<and> (\<forall>js b c. valid_index G js \<longrightarrow> b < length orientations \<longrightarrow> c < 3 \<longrightarrow>
                 data r ! ((flat_index G js * length orientations + b) * 3 + c)
                 = vec_list (vadd (rot_vec (orientations ! b) (point sampling_grid js))
                              (data positions ! 0, data positions ! 1, data positions ! 2)) ! c)"
proof -
  have ne: "orientations \<noteq> []" using many by auto
  have bc: "broadcast_shapes [prod_list G, length orientations, 3] (shape positions)
               = Inr [prod_list G, length orientations, 3]"
    using ps by (elim disjE) (simp_all only: broadcast_single broadcast_vector)
  from gsc_spec [OF sh prod_list_pos [OF pos] ne bc]
  obtain r where r: "generate_sampling_coordinates sampling_grid positions orientations = Inr r"
      "shape r = length orientations # G @ [3]"
    and el: "\<And>js b c. valid_index G js \<Longrightarrow> b < length orientations \<Longrightarrow> c < 3 \<Longrightarrow>
                 data r ! ((flat_index G js * length orientations + b) * 3 + c)
                 = vec_list (rot_vec (orientations ! b) (point sampling_grid js)) ! c
                   + bitem positions [flat_index G js, b, c]"
    by blast
  have "data r ! ((flat_index G js * length orientations + b) * 3 + c)
          = vec_list (vadd (rot_vec (orientations ! b) (point sampling_grid js))
                       (data positions ! 0, data positions ! 1, data positions ! 2)) ! c"
    if "valid_index G js" "b < length orientations" "c < 3" for js b c
    using el [OF that] bitem_single [OF ps that(3)] that(3)
    by (simp only: vec_list_vadd)
  then show ?thesis using r by blast
qed

theorem single_position_broadcast_witness:
  "\<exists>r. generate_sampling_coordinates grid_demo positions_single
          [identity_rotation, quarter_turn_z] = Inr r
       \<and> shape r = [2, 2, 3]
       \<and> data r ! 3 = 5 \<and> data r ! 4 = 7 \<and> data r ! 5 = 7"
proof -
  let ?os = "[identity_rotation, quarter_turn_z]"
  have "shape grid_demo = [2] @ [3]" by (simp add: grid_demo_def)
  moreover have "shape positions_single = [1, 3] \<or> shape positions_single = [3]"
    by (simp add: positions_single_def)
  ultimately obtain r where
    r: "generate_sampling_coordinates grid_demo positions_single ?os = Inr r"
       "shape r = length ?os # [2] @ [3]"
    and el: "\<And>js b c. valid_index [2] js \<Longrightarrow> b < length ?os \<Longrightarrow> c < 3 \<Longrightarrow>
                 data r ! ((flat_index [2] js * length ?os + b) * 3 + c)
                 = vec_list (vadd (rot_vec (?os ! b) (point grid_demo js))
                              (data positions_single ! 0, data positions_single ! 1,
                               data positions_single ! 2)) ! c"
    using single_position_broadcast [of grid_demo "[2]" positions_single ?os]
    by auto
  have "data r ! 3 = 5" "data r ! 4 = 7" "data r ! 5 = 7"
    using el [of "[0]" 1 0] el [of "[0]" 1 1] el [of "[0]" 1 2]
    by (simp_all add: quarter_turn_z_def point_def item_def grid_demo_def positions_single_def)
  then show ?thesis using r by simp
qed

section \<open>The grid generator\<close>

lemma thenR_isl_all: "(\<And>x. isl (f x)) \<Longrightarrow> isl (thenR m f)"
  by (cases m) simp_all

lemma linspace_half:
  assumes "1 < n"
  shows "linspace (- 0.5) 0.5 n
           = Inr (map (\<lambda>i. (real i - (real_of_int n - 1) / 2) / (real_of_int n - 1))
                    [0..<nat n])"
proof -
  have eq: "(if 1 < n \<and> int i = n - 1 then 0.5
         else - 0.5 + real i * ((0.5 - (- 0.5)) / real_of_int (n - 1)))
        = (real i - (real_of_int n - 1) / 2) / (real_of_int n - 1)" for i
  proof (cases "int i = n - 1")
    case True
    then have "real i = real_of_int n - 1" by (metis of_int_1 of_int_diff of_int_of_nat_eq)
    then show ?thesis using assms True by (simp add: field_simps)
  next
    case False
    then show ?thesis using assms by (simp add: field_simps)
  qed
  have "\<not> n < 0" using assms by simp
  then show ?thesis by (simp only: linspace_def eq if_False)
qed

lemma axis_coord_values:
  assumes "0 \<le> n"
  shows "axis_coord n s
           = Inr (map (\<lambda>i. (real i - (real_of_int n - 1) / 2) * s) [0..<nat n])"
proof -
  consider "n = 0" | "n = 1" | "1 < n" using assms by linarith
  then show ?thesis
  proof cases
    case 1
    then show ?thesis by (simp add: axis_coord_def linspace_def)
  next
    case 2
    then show ?thesis by (simp add: axis_coord_def)
  next
    case 3
    then have n1: "n \<noteq> 1" and ne: "real_of_int n - 1 \<noteq> 0" by simp_all
    have "axis_coord n s
            = Inr (map (\<lambda>x. x * real_of_int (n - 1) * s)
                     (map (\<lambda>i. (real i - (real_of_int n - 1) / 2) / (real_of_int n - 1))
                        [0..<nat n]))"
      by (simp only: axis_coord_def n1 simp_thms if_True linspace_half [OF 3] thenR_Inr)
    then show ?thesis using ne by (simp add: o_def)
  qed
qed

lemma axis_coord_negative: "n < 0 \<Longrightarrow> axis_coord n s = Inl ValueError"
  by (simp add: axis_coord_def linspace_def)

lemma meshgrid_nth:
  "d < length coords \<Longrightarrow>
     meshgrid_ij coords ! d = tabulate (map length coords) (\<lambda>idx. (coords ! d) ! (idx ! d))"
  by (simp add: meshgrid_ij_def)

lemma meshgrid_shapes:
  "length (meshgrid_ij coords) = length coords
   \<and> (\<forall>b\<in>set (meshgrid_ij coords). shape b = map length coords)"
  by (auto simp: meshgrid_ij_def)

lemma stacked_grid:
  "\<exists>g. stack (meshgrid_ij [c0, c1, c2]) 3 = Inr g \<and> wf_array g
       \<and> shape g = [length c0, length c1, length c2, 3]
       \<and> (\<forall>i j k. i < length c0 \<longrightarrow> j < length c1 \<longrightarrow> k < length c2 \<longrightarrow>
             point g [i, j, k] = (c0 ! i, c1 ! j, c2 ! k))"
proof -
  let ?cs = "[c0, c1, c2]"
  let ?s = "map length ?cs"
  let ?ms = "meshgrid_ij ?cs"
  have len: "length ?ms = 3" using meshgrid_shapes [of ?cs] by simp
  then have "?ms \<noteq> []" by auto
  moreover have "\<forall>b\<in>set ?ms. shape b = ?s" using meshgrid_shapes [of ?cs] by blast
  moreover have "3 \<le> length ?s" by simp
  ultimately obtain g where g: "stack ?ms 3 = Inr g" "wf_array g"
      "shape g = take 3 ?s @ length ?ms # drop 3 ?s"
    and el: "\<And>idx. valid_index (shape g) idx \<Longrightarrow>
               item g idx = item (?ms ! (idx ! 3)) (take 3 idx @ drop (Suc 3) idx)"
    using stack_spec [of ?ms ?s 3] by blast
  have sh: "shape g = [length c0, length c1, length c2, 3]"
    using g(3) by (simp add: len)
  have comp: "item g [i, j, k, d] = (?cs ! d) ! ([i, j, k] ! d)"
    if "i < length c0" "j < length c1" "k < length c2" "d < 3" for i j k d
  proof -
    have v: "valid_index ?s [i, j, k]" using that by simp
    have "valid_index (shape g) [i, j, k, d]" using that by (simp add: sh)
    from el [OF this] have "item g [i, j, k, d] = item (?ms ! d) [i, j, k]" by simp
    also have "?ms ! d = tabulate ?s (\<lambda>idx. (?cs ! d) ! (idx ! d))"
      using that(4) by (intro meshgrid_nth) simp
    also have "item \<dots> [i, j, k] = (?cs ! d) ! ([i, j, k] ! d)"
      using v by (rule item_tabulate)
    finally show ?thesis .
  qed
  have "point g [i, j, k] = (c0 ! i, c1 ! j, c2 ! k)"
    if "i < length c0" "j < length c1" "k < length c2" for i j k
    using comp [OF that, of 0] comp [OF that, of 1] comp [OF that, of 2]
    by (simp add: point_def)
  then show ?thesis using g(1,2) sh by blast
qed

text \<open>
  The grid in exact arithmetic: shape \<open>(n0, n1, n2, 3)\<close> before squeezing, and along each
  axis the coordinate \<open>(index - (length - 1) / 2) * spacing\<close>.  Squeezing keeps the
  elements.  The float64 values of the code differ from these by rounding.
\<close>

lemma generate_3D_grid_spec:
  assumes "0 < n0" and "0 < n1" and "0 < n2"
  shows "\<exists>g. generate_3D_grid (n0, n1, n2) (s0, s1, s2) False = Inr g
           \<and> generate_3D_grid (n0, n1, n2) (s0, s1, s2) True = Inr (squeeze g)
           \<and> data (squeeze g) = data g
           \<and> shape g = [nat n0, nat n1, nat n2, 3]
           \<and> wf_array g
           \<and> (\<forall>i j k. i < nat n0 \<longrightarrow> j < nat n1 \<longrightarrow> k < nat n2 \<longrightarrow>
                 point g [i, j, k]
                 = ((real i - (real_of_int n0 - 1) / 2) * s0,
                    (real j - (real_of_int n1 - 1) / 2) * s1,
                    (real k - (real_of_int n2 - 1) / 2) * s2))"
proof -
  let ?c0 = "map (\<lambda>i. (real i - (real_of_int n0 - 1) / 2) * s0) [0..<nat n0]"
  let ?c1 = "map (\<lambda>i. (real i - (real_of_int n1 - 1) / 2) * s1) [0..<nat n1]"
  let ?c2 = "map (\<lambda>i. (real i - (real_of_int n2 - 1) / 2) * s2) [0..<nat n2]"
  have a: "axis_coord n0 s0 = Inr ?c0" "axis_coord n1 s1 = Inr ?c1" "axis_coord n2 s2 = Inr ?c2"
    using assms by (simp_all add: axis_coord_values)
  from stacked_grid [of ?c0 ?c1 ?c2]
  obtain g where g: "stack (meshgrid_ij [?c0, ?c1, ?c2]) 3 = Inr g" "wf_array g"
      "shape g = [nat n0, nat n1, nat n2, 3]"
    and el: "\<And>i j k. i < nat n0 \<Longrightarrow> j < nat n1 \<Longrightarrow> k < nat n2 \<Longrightarrow>
               point g [i, j, k] = (?c0 ! i, ?c1 ! j, ?c2 ! k)"
    by auto
  have res: "generate_3D_grid (n0, n1, n2) (s0, s1, s2) sq
               = Inr (if sq then squeeze g else g)" for sq
    by (simp only: generate_3D_grid_def prod.case a thenR_Inr g(1))
  have "point g [i, j, k]
                 = ((real i - (real_of_int n0 - 1) / 2) * s0,
                    (real j - (real_of_int n1 - 1) / 2) * s1,
                    (real k - (real_of_int n2 - 1) / 2) * s2)"
    if "i < nat n0" "j < nat n1" "k < nat n2" for i j k
    using el [OF that] that by simp
  moreover have "data (squeeze g) = data g" by (simp add: squeeze_def)
  ultimately show ?thesis using res [of False] res [of True] g(2,3) by auto
qed

lemma derived_grid_shapes:
  "1 < m \<Longrightarrow> \<exists>g. generate_1D_grid m s = Inr g \<and> shape g = [nat m, 3]"
  "1 < m \<Longrightarrow> 1 < n \<Longrightarrow>
     \<exists>g. generate_2D_grid (m, n) (sx, sy) = Inr g \<and> shape g = [nat m, nat n, 3]"
proof -
  show "\<exists>g. generate_1D_grid m s = Inr g \<and> shape g = [nat m, 3]" if "1 < m"
  proof -
    have "0 < m" using that by simp
    from generate_3D_grid_spec [OF _ _ this, of 1 1 1 1 s]
    obtain g where "generate_3D_grid (1, 1, m) (1, 1, s) True = Inr (squeeze g)"
        "shape g = [nat 1, nat 1, nat m, 3]"
      by auto
    then show ?thesis using that by (simp add: generate_1D_grid_def squeeze_def)
  qed
  show "\<exists>g. generate_2D_grid (m, n) (sx, sy) = Inr g \<and> shape g = [nat m, nat n, 3]"
    if "1 < m" "1 < n"
  proof -
    have mn: "0 < m" "0 < n" using that by simp_all
    have big: "nat m \<noteq> Suc 0" "nat n \<noteq> Suc 0" using that by linarith+
    from generate_3D_grid_spec [OF mn, of 1 sx sy 1]
    obtain g where "generate_3D_grid (m, n, 1) (sx, sy, 1) True = Inr (squeeze g)"
        "shape g = [nat m, nat n, nat 1, 3]"
      by auto
    then show ?thesis using big by (simp add: generate_2D_grid_def squeeze_def)
  qed
qed

text \<open>
  C5.  With a length of 1 the derived generators lose an axis: the 1-D grid of one point
  has shape \<open>(3,)\<close> instead of \<open>(1, 3)\<close>, the 2-D grid of shape \<open>(1, 2)\<close> has shape
  \<open>(2, 3)\<close> instead of \<open>(1, 2, 3)\<close>.
\<close>

theorem derived_grids_squeezed_at_input:
  "generate_1D_grid 1 1 = Inr (NDArray [3] [0, 0, 0])
   \<and> generate_2D_grid (1, 2) (1, 1) = Inr (NDArray [2, 3] [0, - (1 / 2), 0, 0, 1 / 2, 0])"
  by code_simp

text \<open>
  C6 as stated fails: a zero length gives an empty grid, a non-positive spacing a
  mirrored or collapsed one, and nothing is raised.
\<close>

theorem grid_invalid_input_counterexample:
  "generate_3D_grid (2, 0, 2) (1, 1, 1) False = Inr (NDArray [2, 0, 2, 3] [])
   \<and> generate_3D_grid (2, 1, 1) (- 1, 0, 1) True
       = Inr (NDArray [2, 3] [1 / 2, 0, 0, - (1 / 2), 0, 0])"
  by code_simp

text \<open>
  C6, amended.  The generator raises exactly when a length of the shape is negative
  (\<open>linspace\<close> refuses it); the spacing is never checked.
\<close>

theorem grid_rejects_negative_length:
  "isl (generate_3D_grid (n0, n1, n2) (s0, s1, s2) squeeze_flag)
     = (n0 < 0 \<or> n1 < 0 \<or> n2 < 0)"
proof (cases "n0 < 0 \<or> n1 < 0 \<or> n2 < 0")
  case True
  then show ?thesis
    by (cases "n0 < 0"; cases "n1 < 0"; cases "n2 < 0")
       (auto simp: generate_3D_grid_def axis_coord_negative intro!: thenR_isl_all)
next
  case False
  then obtain c0 c1 c2 where
    a: "axis_coord n0 s0 = Inr c0" "axis_coord n1 s1 = Inr c1" "axis_coord n2 s2 = Inr c2"
    using axis_coord_values [of n0 s0] axis_coord_values [of n1 s1]
      axis_coord_values [of n2 s2] by auto
  from stacked_grid [of c0 c1 c2]
  obtain g where g: "stack (meshgrid_ij [c0, c1, c2]) 3 = Inr g" by blast
  have "generate_3D_grid (n0, n1, n2) (s0, s1, s2) squeeze_flag
               = Inr (if squeeze_flag then squeeze g else g)"
    by (simp only: generate_3D_grid_def prod.case a thenR_Inr g)
  then show ?thesis using False by simp
qed

theorem grid_rejects_negative_length_witness:
  "isl (generate_3D_grid (2, - 1, 2) (1, 1, 1) False)
   \<and> \<not> isl (generate_3D_grid (2, 0, 2) (1, - 1, 0) True)"
  using grid_rejects_negative_length [of 2 "- 1" 2 1 1 1 False]
    grid_rejects_negative_length [of 2 0 2 1 "- 1" 0 True]
  by simp

end
